theory Spec2Isabelle
  imports Main "HOL-Library.AList"
begin

text \<open>
  A to-do list service: a dictionary of tasks and a counter of IDs in the memory of
  the process, and five handlers over them (list, get, create, update, delete). The
  handlers are embedded as functions on the state; the clock they read and the request
  bodies they are given are arguments. Bodies are validated against the models of
  \<open>models.py\<close> before a handler runs.
\<close>

section \<open>Data model (models.py)\<close>

text \<open>
  A \<open>datetime\<close> is a reading of the wall clock, counted in microseconds. Only equality and
  order of readings are used.
\<close>

type_synonym datetime = int

text \<open>
  A field of a JSON request body, and likewise an attribute of a pydantic model whose
  declared type is \<open>Optional[...]\<close> with default \<open>None\<close>: the key is missing (\<open>Unset\<close>, the
  attribute is \<open>None\<close> and is not in the set of fields that were supplied), the key
  is given as \<open>null\<close> (\<open>Null\<close>, the attribute is \<open>None\<close> and counts as supplied), or the key
  carries a value. A string is a list of characters and \<open>length\<close> counts them, as
  \<open>min_length\<close> and \<open>max_length\<close> do.
\<close>

datatype 'a field = Unset | Null | Val 'a

text \<open>
  The body of a POST or PUT request, restricted to the three keys that the models
  declare, each with a value of the declared JSON type or \<open>null\<close>. Other keys are ignored
  by both models; a value of another JSON type is refused before any code of the
  repository runs.
\<close>

record json_body =
  j_title :: "string field"
  j_description :: "string field"
  j_completed :: "bool field"

text \<open>
  \<open>TaskCreate\<close> (a \<open>TaskBase\<close> with nothing added), after validation. The fields of the
  three models carry a prefix each, since records of one theory cannot share field names.
\<close>

record TaskCreate =
  c_title :: string
  c_description :: "string option"

text \<open>\<open>TaskUpdate\<close>, after validation: every field is optional and remembers whether it was supplied.\<close>

record TaskUpdate =
  u_title :: "string field"
  u_description :: "string field"
  u_completed :: "bool field"

text \<open>
  \<open>Task\<close>. The class declares \<open>title: str\<close> and \<open>completed: bool\<close>, but it does not validate
  assignments, so after \<open>setattr\<close> the attributes hold whatever was assigned, \<open>None\<close> included.
  The attributes are therefore modelled with the values they can hold at run time.
  The field \<open>id\<close> is called \<open>task_id\<close> here.
\<close>

record Task =
  task_id :: int
  title :: "string option"
  description :: "string option"
  completed :: "bool option"
  created_at :: datetime
  updated_at :: datetime

datatype error =
  HTTPException nat string
  | RequestValidationError "string list"

text \<open>The constraints of \<open>Field(..., min_length=1, max_length=200)\<close> and \<open>Field(None, max_length=1000)\<close>.\<close>

definition title_constraint :: "string \<Rightarrow> bool" where
  "title_constraint s \<longleftrightarrow> 1 \<le> length s \<and> length s \<le> 200"

definition description_constraint :: "string \<Rightarrow> bool" where
  "description_constraint s \<longleftrightarrow> length s \<le> 1000"

text \<open>
  Validation of a request body against \<open>TaskCreate\<close>: \<open>title\<close> is required and must be a
  string within the bounds; \<open>description\<close> may be missing or \<open>null\<close>. The error lists the
  fields that were refused.
\<close>

definition validate_TaskCreate :: "json_body \<Rightarrow> error + TaskCreate" where
  "validate_TaskCreate b =
     (let t = (case j_title b of
                 Val s \<Rightarrow> if title_constraint s then Some s else None
               | Null \<Rightarrow> None
               | Unset \<Rightarrow> None);
          d = (case j_description b of
                 Val s \<Rightarrow> if description_constraint s then Some (Some s) else None
               | Null \<Rightarrow> Some None
               | Unset \<Rightarrow> Some None)
      in case (t, d) of
           (Some s, Some x) \<Rightarrow> Inr \<lparr>c_title = s, c_description = x\<rparr>
         | (None, Some x) \<Rightarrow> Inl (RequestValidationError [''title''])
         | (Some s, None) \<Rightarrow> Inl (RequestValidationError [''description''])
         | (None, None) \<Rightarrow> Inl (RequestValidationError [''title'', ''description'']))"

text \<open>
  Validation against \<open>TaskUpdate\<close>: every field is \<open>Optional\<close>, so a missing key and \<open>null\<close>
  both pass; the bounds apply to strings only.
\<close>

definition validate_TaskUpdate :: "json_body \<Rightarrow> error + TaskUpdate" where
  "validate_TaskUpdate b =
     (let t = (case j_title b of
                 Val s \<Rightarrow> title_constraint s
               | Null \<Rightarrow> True
               | Unset \<Rightarrow> True);
          d = (case j_description b of
                 Val s \<Rightarrow> description_constraint s
               | Null \<Rightarrow> True
               | Unset \<Rightarrow> True)
      in if t \<and> d then
           Inr \<lparr>u_title = j_title b, u_description = j_description b, u_completed = j_completed b\<rparr>
         else if d then Inl (RequestValidationError [''title''])
         else if t then Inl (RequestValidationError [''description''])
         else Inl (RequestValidationError [''title'', ''description'']))"

section \<open>The store (main.py)\<close>

text \<open>
  \<open>tasks_db\<close> is a Python dictionary: an association list in insertion order. Assigning to
  a new key appends, assigning to an existing key keeps its position
  (\<open>AList.update\<close>), \<open>del\<close> removes the entry (\<open>AList.delete\<close>).
\<close>

record state =
  tasks_db :: "(int \<times> Task) list"
  next_id :: int

definition init_state :: state where
  "init_state = \<lparr>tasks_db = [], next_id = 1\<rparr>"

text \<open>Decimal rendering of an integer, as an f-string does it.\<close>

definition digit_char :: "nat \<Rightarrow> char" where
  "digit_char d = ''0123456789'' ! d"

function digits :: "nat \<Rightarrow> string" where
  "digits n = (if n < 10 then [digit_char n] else digits (n div 10) @ [digit_char (n mod 10)])"
  by pat_completeness auto
termination
  by (relation "measure id") auto

declare digits.simps [simp del]

definition str_int :: "int \<Rightarrow> string" where
  "str_int i = (if i < 0 then CHR ''-'' # digits (nat (- i)) else digits (nat i))"

definition HTTP_404_NOT_FOUND :: nat where
  "HTTP_404_NOT_FOUND = 404"

subsection \<open>\<open>get_tasks\<close>\<close>

definition get_tasks :: "state \<Rightarrow> bool option \<Rightarrow> Task list" where
  "get_tasks st flt =
     (case flt of
        None \<Rightarrow> map snd (tasks_db st)
      | Some c \<Rightarrow> filter (\<lambda>task. completed task = Some c) (map snd (tasks_db st)))"

subsection \<open>\<open>get_task\<close>\<close>

definition get_task :: "state \<Rightarrow> int \<Rightarrow> error + Task" where
  "get_task st i =
     (case map_of (tasks_db st) i of
        None \<Rightarrow> Inl (HTTPException HTTP_404_NOT_FOUND
                  (''Error: Task with the id '' @ str_int i @ '' not found''))
      | Some task \<Rightarrow> Inr task)"

subsection \<open>\<open>create_task\<close>\<close>

text \<open>
  The two calls of \<open>datetime.now()\<close> are two readings of the clock, passed in the order in
  which the arguments of \<open>Task(...)\<close> are evaluated.
\<close>

definition create_task :: "state \<Rightarrow> TaskCreate \<Rightarrow> datetime \<Rightarrow> datetime \<Rightarrow> Task \<times> state" where
  "create_task st task_data now1 now2 =
     (let new_task = \<lparr>task_id = next_id st,
                      title = Some (c_title task_data),
                      description = c_description task_data,
                      completed = Some False,
                      created_at = now1,
                      updated_at = now2\<rparr>
      in (new_task,
          \<lparr>tasks_db = AList.update (next_id st) new_task (tasks_db st),
           next_id = next_id st + 1\<rparr>))"

subsection \<open>\<open>update_task\<close>\<close>

text \<open>\<open>model_dump(exclude_unset=True)\<close>: the supplied fields with their values, in declaration order.\<close>

datatype assignment =
  Set_title "string option"
  | Set_description "string option"
  | Set_completed "bool option"

definition supplied :: "'a field \<Rightarrow> ('a option \<Rightarrow> assignment) \<Rightarrow> assignment list" where
  "supplied f mk = (case f of Unset \<Rightarrow> [] | Null \<Rightarrow> [mk None] | Val v \<Rightarrow> [mk (Some v)])"

definition model_dump_exclude_unset :: "TaskUpdate \<Rightarrow> assignment list" where
  "model_dump_exclude_unset task_data =
     supplied (u_title task_data) Set_title
     @ supplied (u_description task_data) Set_description
     @ supplied (u_completed task_data) Set_completed"

fun setattr :: "Task \<Rightarrow> assignment \<Rightarrow> Task" where
  "setattr task (Set_title v) = task\<lparr>title := v\<rparr>"
| "setattr task (Set_description v) = task\<lparr>description := v\<rparr>"
| "setattr task (Set_completed v) = task\<lparr>completed := v\<rparr>"

definition update_task :: "state \<Rightarrow> int \<Rightarrow> TaskUpdate \<Rightarrow> datetime \<Rightarrow> (error + Task) \<times> state" where
  "update_task st i task_data now =
     (case map_of (tasks_db st) i of
        None \<Rightarrow> (Inl (HTTPException HTTP_404_NOT_FOUND
                   (''Task with the id '' @ str_int i @ '' not found'')), st)
      | Some task \<Rightarrow>
          (let task' = (foldl setattr task (model_dump_exclude_unset task_data))\<lparr>updated_at := now\<rparr>
           in (Inr task', st\<lparr>tasks_db := AList.update i task' (tasks_db st)\<rparr>)))"

subsection \<open>\<open>delete_task\<close>\<close>

definition delete_task :: "state \<Rightarrow> int \<Rightarrow> (error + unit) \<times> state" where
  "delete_task st i =
     (case map_of (tasks_db st) i of
        None \<Rightarrow> (Inl (HTTPException HTTP_404_NOT_FOUND
                   (''Task with the id '' @ str_int i @ '' not found'')), st)
      | Some task \<Rightarrow> (Inr (), st\<lparr>tasks_db := AList.delete i (tasks_db st)\<rparr>))"

section \<open>The endpoints\<close>

text \<open>
  The framework validates the body of a request against the model named in the handler's
  signature and calls the handler only when validation passes; otherwise it answers
  with the validation error and the handler does not run. The result of an endpoint is
  the error raised or the value the handler returns, together with the state it leaves.
\<close>

definition post_tasks :: "state \<Rightarrow> json_body \<Rightarrow> datetime \<Rightarrow> datetime \<Rightarrow> (error + Task) \<times> state" where
  "post_tasks st body now1 now2 =
     (case validate_TaskCreate body of
        Inl e \<Rightarrow> (Inl e, st)
      | Inr task_data \<Rightarrow> (case create_task st task_data now1 now2 of (task, st') \<Rightarrow> (Inr task, st')))"

definition put_task :: "state \<Rightarrow> int \<Rightarrow> json_body \<Rightarrow> datetime \<Rightarrow> (error + Task) \<times> state" where
  "put_task st i body now =
     (case validate_TaskUpdate body of
        Inl e \<Rightarrow> (Inl e, st)
      | Inr task_data \<Rightarrow> update_task st i task_data now)"

text \<open>
  A request, with the clock readings its handler will take, and the answer to it.
\<close>

datatype request =
  List_req "bool option"
  | Get_req int
  | Create_req json_body datetime datetime
  | Update_req int json_body datetime
  | Delete_req int

datatype response =
  Tasks "Task list"
  | One Task
  | No_content
  | Failed error

fun handle :: "state \<Rightarrow> request \<Rightarrow> response \<times> state" where
  "handle st (List_req flt) = (Tasks (get_tasks st flt), st)"
| "handle st (Get_req i) =
     (case get_task st i of Inl e \<Rightarrow> (Failed e, st) | Inr task \<Rightarrow> (One task, st))"
| "handle st (Create_req body now1 now2) =
     (case post_tasks st body now1 now2 of
        (Inl e, st') \<Rightarrow> (Failed e, st')
      | (Inr task, st') \<Rightarrow> (One task, st'))"
| "handle st (Update_req i body now) =
     (case put_task st i body now of
        (Inl e, st') \<Rightarrow> (Failed e, st')
      | (Inr task, st') \<Rightarrow> (One task, st'))"
| "handle st (Delete_req i) =
     (case delete_task st i of
        (Inl e, st') \<Rightarrow> (Failed e, st')
      | (Inr u, st') \<Rightarrow> (No_content, st'))"

text \<open>The state after a sequence of requests, and the answers given along the way.\<close>

fun run :: "state \<Rightarrow> request list \<Rightarrow> state" where
  "run st [] = st"
| "run st (r # rs) = run (snd (handle st r)) rs"

fun responses :: "state \<Rightarrow> request list \<Rightarrow> response list" where
  "responses st [] = []"
| "responses st (r # rs) = fst (handle st r) # responses (snd (handle st r)) rs"

text \<open>The IDs handed out by the successful Create requests of a sequence, in order.\<close>

fun created_ids :: "state \<Rightarrow> request list \<Rightarrow> int list" where
  "created_ids st [] = []"
| "created_ids st (Create_req body now1 now2 # rs) =
     (case post_tasks st body now1 now2 of
        (Inl e, st') \<Rightarrow> created_ids st' rs
      | (Inr task, st') \<Rightarrow> task_id task # created_ids st' rs)"
| "created_ids st (r # rs) = created_ids (snd (handle st r)) rs"

section \<open>Vocabulary of the properties\<close>

text \<open>\<open>task_id in tasks_db\<close>.\<close>

definition has_key :: "state \<Rightarrow> int \<Rightarrow> bool" where
  "has_key st i \<longleftrightarrow> i \<in> set (map fst (tasks_db st))"

text \<open>The two kinds of failure: an \<open>HTTPException\<close> with status 404, and a validation error.\<close>

fun not_found :: "error + 'a \<Rightarrow> bool" where
  "not_found (Inl (HTTPException c d)) = (c = 404)"
| "not_found (Inl (RequestValidationError fs)) = False"
| "not_found (Inr x) = False"

fun validation_error :: "error + 'a \<Rightarrow> bool" where
  "validation_error (Inl (RequestValidationError fs)) = True"
| "validation_error (Inl (HTTPException c d)) = False"
| "validation_error (Inr x) = False"

text \<open>
  What every dictionary built by the handlers satisfies: keys are distinct, every task is
  stored under its own \<open>id\<close>, and every key is below the counter.
\<close>

definition wf_state :: "state \<Rightarrow> bool" where
  "wf_state st \<longleftrightarrow>
     distinct (map fst (tasks_db st)) \<and>
     (\<forall>(k, t) \<in> set (tasks_db st). task_id t = k \<and> k < next_id st)"

text \<open>A request body and a sequence of requests used in the examples.\<close>

definition body_a :: json_body where
  "body_a = \<lparr>j_title = Val ''a'', j_description = Unset, j_completed = Unset\<rparr>"

definition three_tasks :: "request list" where
  "three_tasks = [Create_req body_a 0 0, Create_req body_a 1 1, Create_req body_a 2 2]"

text \<open>
  A Create body as the specification describes it: a title of 1 to 200 characters, and a
  description that is missing, \<open>null\<close> or of at most 1000 characters.
\<close>

definition valid_create_body :: "json_body \<Rightarrow> bool" where
  "valid_create_body b \<longleftrightarrow>
     (case j_title b of Val s \<Rightarrow> 1 \<le> length s \<and> length s \<le> 200 | Null \<Rightarrow> False | Unset \<Rightarrow> False)
     \<and> (case j_description b of Val d \<Rightarrow> length d \<le> 1000 | Null \<Rightarrow> True | Unset \<Rightarrow> True)"

text \<open>The string of \<open>n\<close> letters x.\<close>

definition xs :: "nat \<Rightarrow> string" where
  "xs n = replicate n CHR ''x''"

text \<open>
  A patch as the specification describes it: each supplied field satisfies the
  constraint Create puts on it. A title and a completion flag, when supplied, are
  values; a description may be \<open>null\<close>.
\<close>

definition valid_patch :: "json_body \<Rightarrow> bool" where
  "valid_patch b \<longleftrightarrow>
     (case j_title b of Val s \<Rightarrow> 1 \<le> length s \<and> length s \<le> 200 | Null \<Rightarrow> False | Unset \<Rightarrow> True)
     \<and> (case j_description b of Val d \<Rightarrow> length d \<le> 1000 | Null \<Rightarrow> True | Unset \<Rightarrow> True)
     \<and> (case j_completed b of Val c \<Rightarrow> True | Null \<Rightarrow> False | Unset \<Rightarrow> True)"

text \<open>
  Some supplied string breaks its length bounds: a title that is empty or longer than
  200 characters, or a description longer than 1000 characters.
\<close>

definition out_of_bounds :: "json_body \<Rightarrow> bool" where
  "out_of_bounds b \<longleftrightarrow>
     (case j_title b of Val s \<Rightarrow> length s < 1 \<or> 200 < length s | Null \<Rightarrow> False | Unset \<Rightarrow> False)
     \<or> (case j_description b of Val d \<Rightarrow> 1000 < length d | Null \<Rightarrow> False | Unset \<Rightarrow> False)"

text \<open>
  The value of an attribute after a merge update: kept when the field is missing from
  the patch, replaced when it is supplied.
\<close>

definition patched :: "'a field \<Rightarrow> 'a option \<Rightarrow> 'a option" where
  "patched f old = (case f of Unset \<Rightarrow> old | Null \<Rightarrow> None | Val v \<Rightarrow> Some v)"

definition empty_patch :: json_body where
  "empty_patch = \<lparr>j_title = Unset, j_description = Unset, j_completed = Unset\<rparr>"

text \<open>
  States, tasks and request bodies used in the examples.
\<close>

definition one_task :: state where
  "one_task = run init_state [Create_req body_a 5 5]"

definition task_one :: Task where
  "task_one = \<lparr>task_id = 1, title = Some ''a'', description = None, completed = Some False,
       created_at = 5, updated_at = 5\<rparr>"

definition new_title :: json_body where
  "new_title = \<lparr>j_title = Val ''Updated'', j_description = Unset, j_completed = Unset\<rparr>"

definition empty_title :: json_body where
  "empty_title = \<lparr>j_title = Val [], j_description = Unset, j_completed = Unset\<rparr>"

text \<open>
  The bounds of the data model on a stored task: the title is a string of 1 to 200
  characters, the description, when there is one, has at most 1000 characters.
\<close>

definition task_within_bounds :: "Task \<Rightarrow> bool" where
  "task_within_bounds t \<longleftrightarrow>
     (case title t of None \<Rightarrow> False | Some s \<Rightarrow> 1 \<le> length s \<and> length s \<le> 200)
     \<and> (case description t of None \<Rightarrow> True | Some d \<Rightarrow> length d \<le> 1000)"

definition store_within_bounds :: "state \<Rightarrow> bool" where
  "store_within_bounds st \<longleftrightarrow> list_all task_within_bounds (map snd (tasks_db st))"

text \<open>The bound on the description alone.\<close>

definition description_within_bound :: "Task \<Rightarrow> bool" where
  "description_within_bound t \<longleftrightarrow>
     (case description t of None \<Rightarrow> True | Some d \<Rightarrow> length d \<le> 1000)"

text \<open>
  A request that supplies \<open>null\<close> as the title of an Update.
\<close>

fun title_null :: "request \<Rightarrow> bool" where
  "title_null (Update_req i body now) = (j_title body = Null)"
| "title_null (List_req flt) = False"
| "title_null (Get_req i) = False"
| "title_null (Create_req body now1 now2) = False"
| "title_null (Delete_req i) = False"

definition null_title :: json_body where
  "null_title = \<lparr>j_title = Null, j_description = Unset, j_completed = Unset\<rparr>"

definition null_completed :: json_body where
  "null_completed = \<lparr>j_title = Unset, j_description = Unset, j_completed = Null\<rparr>"

text \<open>
  The bodies of the scenario in which a task is created and then marked as completed.
\<close>

definition task_body :: json_body where
  "task_body = \<lparr>j_title = Val ''Task'', j_description = Null, j_completed = Unset\<rparr>"

definition mark_completed :: json_body where
  "mark_completed = \<lparr>j_title = Unset, j_description = Unset, j_completed = Val True\<rparr>"

section \<open>Association lists\<close>

lemma set_update_distinct:
  "distinct (map fst al) \<Longrightarrow> set (AList.update k v al) = {p \<in> set al. fst p \<noteq> k} \<union> {(k, v)}"
  by (induct al) (auto simp: rev_image_eqI)

lemma set_delete: "set (AList.delete k al) = {p \<in> set al. fst p \<noteq> k}"
  by (auto simp: AList.delete_eq)

lemma update_fresh: "k \<notin> fst ` set al \<Longrightarrow> AList.update k v al = al @ [(k, v)]"
  by (induct al) auto

section \<open>What a request does to the state\<close>

lemma snd_handle:
  "snd (handle st r) =
     (case r of
        List_req flt \<Rightarrow> st
      | Get_req i \<Rightarrow> st
      | Create_req body n1 n2 \<Rightarrow> snd (post_tasks st body n1 n2)
      | Update_req i body n \<Rightarrow> snd (put_task st i body n)
      | Delete_req i \<Rightarrow> snd (delete_task st i))"
  by (cases r) (auto split: sum.splits prod.splits)

lemma snd_post_tasks:
  "snd (post_tasks st body n1 n2) =
     (case validate_TaskCreate body of Inl e \<Rightarrow> st | Inr d \<Rightarrow> snd (create_task st d n1 n2))"
  by (simp add: post_tasks_def split: sum.splits prod.splits)

lemma snd_put_task:
  "snd (put_task st i body n) =
     (case validate_TaskUpdate body of Inl e \<Rightarrow> st | Inr d \<Rightarrow> snd (update_task st i d n))"
  by (simp add: put_task_def split: sum.splits)

lemma foldl_setattr_id [simp]: "task_id (foldl setattr t as) = task_id t"
proof (induct as arbitrary: t)
  case Nil
  show ?case by simp
next
  case (Cons a as)
  have "task_id (setattr t a) = task_id t" by (cases a) simp_all
  with Cons show ?case by simp
qed

lemma next_id_put [simp]: "next_id (snd (put_task st i body n)) = next_id st"
  by (simp add: snd_put_task update_task_def Let_def split: sum.splits option.splits)

lemma next_id_delete [simp]: "next_id (snd (delete_task st i)) = next_id st"
  by (simp add: delete_task_def split: option.splits)

lemma post_tasks_cases:
  "(\<exists>e. post_tasks st body n1 n2 = (Inl e, st)) \<or>
   (\<exists>t st'. post_tasks st body n1 n2 = (Inr t, st') \<and> task_id t = next_id st
      \<and> next_id st' = next_id st + 1)"
  by (cases "validate_TaskCreate body") (simp_all add: post_tasks_def create_task_def Let_def)

lemma next_id_handle_other:
  "(\<forall>b n1 n2. r \<noteq> Create_req b n1 n2) \<Longrightarrow> next_id (snd (handle st r)) = next_id st"
  unfolding snd_handle by (cases r) simp_all

subsection \<open>The dictionary stays well formed\<close>

lemma wf_init: "wf_state init_state"
  by (simp add: wf_state_def init_state_def)

lemma wf_create: "wf_state st \<Longrightarrow> wf_state (snd (create_task st d n1 n2))"
  by (auto simp: wf_state_def create_task_def Let_def set_update_distinct AList.distinct_update)

lemma wf_update: "wf_state st \<Longrightarrow> wf_state (snd (update_task st i d n))"
  by (auto simp: wf_state_def update_task_def Let_def set_update_distinct AList.distinct_update
      split: option.splits dest: map_of_SomeD)

lemma wf_delete: "wf_state st \<Longrightarrow> wf_state (snd (delete_task st i))"
  by (auto simp: wf_state_def delete_task_def set_delete AList.distinct_delete split: option.splits)

lemma wf_handle: "wf_state st \<Longrightarrow> wf_state (snd (handle st r))"
  unfolding snd_handle
  by (cases r) (simp_all add: snd_post_tasks snd_put_task wf_create wf_update wf_delete
      split: sum.splits)

lemma wf_run: "wf_state st \<Longrightarrow> wf_state (run st rs)"
  by (induct rs arbitrary: st) (auto simp: wf_handle)

lemma wf_reachable: "wf_state (run init_state rs)"
  by (rule wf_run) (rule wf_init)

lemma wf_keys_below: "wf_state st \<Longrightarrow> k \<in> set (map fst (tasks_db st)) \<Longrightarrow> k < next_id st"
  by (auto simp: wf_state_def)

lemma wf_next_id_fresh: "wf_state st \<Longrightarrow> next_id st \<notin> fst ` set (tasks_db st)"
  by (auto simp: wf_state_def)

section \<open>Assigned IDs\<close>

lemma created_ids_other:
  "(\<forall>b n1 n2. r \<noteq> Create_req b n1 n2) \<Longrightarrow>
     created_ids st (r # rs) = created_ids (snd (handle st r)) rs"
  by (cases r) simp_all

lemma created_ids_from:
  "created_ids st rs = map (\<lambda>n. next_id st + int n) [0..<length (created_ids st rs)]"
proof (induct rs arbitrary: st)
  case Nil
  show ?case by simp
next
  case (Cons r rs)
  show ?case
  proof (cases "\<exists>b n1 n2. r = Create_req b n1 n2")
    case False
    then have o: "\<forall>b n1 n2. r \<noteq> Create_req b n1 n2" by blast
    show ?thesis
      using Cons[of "snd (handle st r)"] created_ids_other[OF o] next_id_handle_other[OF o]
      by simp
  next
    case True
    then obtain body n1 n2 where Create_req: "r = Create_req body n1 n2" by blast
    from post_tasks_cases[of st body n1 n2] show ?thesis
    proof (elim disjE exE conjE)
      fix e assume "post_tasks st body n1 n2 = (Inl e, st)"
      then show ?thesis using Cons[of st] Create_req by simp
    next
      fix t st'
      assume p: "post_tasks st body n1 n2 = (Inr t, st')" and i: "task_id t = next_id st"
        and n: "next_id st' = next_id st + 1"
      let ?m = "length (created_ids st' rs)"
      have "created_ids st (r # rs) = next_id st # created_ids st' rs"
        using p i Create_req by simp
      also have "created_ids st' rs = map (\<lambda>n. next_id st' + int n) [0..<?m]"
        by (rule Cons)
      also have "\<dots> = map (\<lambda>n. next_id st + int n) [Suc 0..<Suc ?m]"
        using n by (simp add: map_Suc_upt[symmetric] del: upt_Suc)
      also have "next_id st # \<dots> = map (\<lambda>n. next_id st + int n) [0..<Suc ?m]"
        by (simp add: upt_conv_Cons del: upt_Suc)
      finally show ?thesis using p Create_req by simp
    qed
  qed
qed

text \<open>
  C2. Whatever requests are sent to the empty store, successful or not and Delete
  included, the IDs handed out by the successful Create requests are \<open>1, 2, 3, \<dots>\<close> in
  this order: they are strictly increasing, the first one is 1, and none is handed out
  twice.
\<close>

theorem created_ids_increasing:
  "created_ids init_state rs = map int [1..<Suc (length (created_ids init_state rs))]
   \<and> sorted_wrt (<) (created_ids init_state rs)
   \<and> distinct (created_ids init_state rs)
   \<and> (created_ids init_state rs = [] \<or> hd (created_ids init_state rs) = 1)"
proof -
  let ?ids = "created_ids init_state rs"
  have "?ids = map (\<lambda>n. 1 + int n) [0..<length ?ids]"
    using created_ids_from[of init_state rs] by (simp add: init_state_def)
  also have "\<dots> = map int [1..<Suc (length ?ids)]"
    by (simp add: map_Suc_upt[symmetric] del: upt_Suc)
  finally have eq: "?ids = map int [1..<Suc (length ?ids)]" .
  have s: "sorted_wrt (<) (map int [1..<Suc (length ?ids)])"
    by (simp add: sorted_wrt_map del: upt_Suc)
  have d: "distinct (map int [1..<Suc (length ?ids)])"
    by (simp add: distinct_map del: upt_Suc)
  have h: "map int [1..<Suc (length ?ids)] = [] \<or> hd (map int [1..<Suc (length ?ids)]) = 1"
    by (cases "length ?ids") (simp_all add: upt_conv_Cons del: upt_Suc)
  show ?thesis using eq s d h by metis
qed

section \<open>The counter and the keys\<close>

text \<open>
  C10. In every state reached from the empty store, every key of the dictionary is
  below the counter; so the counter is not a key, and \<open>create_task\<close> appends its task to
  the dictionary under the counter and leaves every entry that was there as it was.
\<close>

theorem next_id_above_keys:
  "(\<forall>k \<in> set (map fst (tasks_db (run init_state rs))). k < next_id (run init_state rs))
   \<and> \<not> has_key (run init_state rs) (next_id (run init_state rs))
   \<and> tasks_db (snd (create_task (run init_state rs) task_data now1 now2)) =
       tasks_db (run init_state rs)
       @ [(next_id (run init_state rs), fst (create_task (run init_state rs) task_data now1 now2))]"
proof -
  let ?st = "run init_state rs"
  have wf: "wf_state ?st" by (rule wf_reachable)
  have a: "\<forall>k \<in> set (map fst (tasks_db ?st)). k < next_id ?st"
    using wf_keys_below[OF wf] by blast
  have b: "\<not> has_key ?st (next_id ?st)"
    using wf_next_id_fresh[OF wf] by (simp add: has_key_def)
  have c: "tasks_db (snd (create_task ?st task_data now1 now2)) =
       tasks_db ?st @ [(next_id ?st, fst (create_task ?st task_data now1 now2))]"
    using wf_next_id_fresh[OF wf] by (simp add: create_task_def Let_def update_fresh)
  show ?thesis using a b c by blast
qed

theorem next_id_above_keys_witness:
  "1 \<in> set (map fst (tasks_db (run init_state [Create_req body_a 0 0])))
   \<and> 1 < next_id (run init_state [Create_req body_a 0 0])"
proof -
  have h: "1 \<in> set (map fst (tasks_db (run init_state [Create_req body_a 0 0])))"
    by code_simp
  with next_id_above_keys[of "[Create_req body_a 0 0]"] show ?thesis by blast
qed

section \<open>Get\<close>

lemma has_key_map_of: "has_key st i \<longleftrightarrow> map_of (tasks_db st) i \<noteq> None"
  by (simp add: has_key_def map_of_eq_None_iff)

text \<open>
  C9. In every state reached from the empty store and for every ID: when a task is stored
  under the ID, \<open>get_task\<close> returns that task; it fails exactly when the ID is not a key,
  and the failure is then the 404 \<open>HTTPException\<close> whose message spells the requested ID
  in decimal.
\<close>

theorem get_task_found_or_not:
  "(\<forall>task. (i, task) \<in> set (tasks_db (run init_state rs)) \<longrightarrow>
       get_task (run init_state rs) i = Inr task)
   \<and> (not_found (get_task (run init_state rs) i) \<longleftrightarrow> \<not> has_key (run init_state rs) i)
   \<and> ((\<exists>e. get_task (run init_state rs) i = Inl e) \<longleftrightarrow> \<not> has_key (run init_state rs) i)
   \<and> (\<not> has_key (run init_state rs) i \<longrightarrow>
        get_task (run init_state rs) i =
          Inl (HTTPException 404 (''Error: Task with the id '' @ str_int i @ '' not found'')))"
proof -
  let ?st = "run init_state rs"
  have wf: "wf_state ?st" by (rule wf_reachable)
  then have d: "distinct (map fst (tasks_db ?st))" by (simp add: wf_state_def)
  have a: "\<forall>task. (i, task) \<in> set (tasks_db ?st) \<longrightarrow> get_task ?st i = Inr task"
    using d by (simp add: get_task_def)
  have b: "not_found (get_task ?st i) \<longleftrightarrow> \<not> has_key ?st i"
    by (cases "map_of (tasks_db ?st) i")
       (simp_all add: has_key_map_of get_task_def HTTP_404_NOT_FOUND_def)
  have c: "(\<exists>e. get_task ?st i = Inl e) \<longleftrightarrow> \<not> has_key ?st i"
    by (cases "map_of (tasks_db ?st) i") (simp_all add: has_key_map_of get_task_def)
  have e: "\<not> has_key ?st i \<longrightarrow> get_task ?st i =
          Inl (HTTPException 404 (''Error: Task with the id '' @ str_int i @ '' not found''))"
    by (simp add: has_key_map_of get_task_def HTTP_404_NOT_FOUND_def)
  show ?thesis using a b c e by blast
qed

theorem get_task_found_or_not_witness:
  "(1, \<lparr>task_id = 1, title = Some ''a'', description = None, completed = Some False,
        created_at = 0, updated_at = 0\<rparr>) \<in> set (tasks_db (run init_state [Create_req body_a 0 0]))
   \<and> get_task (run init_state [Create_req body_a 0 0]) 1 =
       Inr \<lparr>task_id = 1, title = Some ''a'', description = None, completed = Some False,
        created_at = 0, updated_at = 0\<rparr>
   \<and> \<not> has_key (run init_state [Create_req body_a 0 0]) 2
   \<and> get_task (run init_state [Create_req body_a 0 0]) 2 =
       Inl (HTTPException 404 (''Error: Task with the id '' @ str_int 2 @ '' not found''))"
proof -
  let ?rs = "[Create_req body_a 0 0]"
  have h1: "(1, \<lparr>task_id = 1, title = Some ''a'', description = None, completed = Some False,
        created_at = 0, updated_at = 0\<rparr>) \<in> set (tasks_db (run init_state ?rs))"
    by code_simp
  have h2: "\<not> has_key (run init_state ?rs) 2"
    by code_simp
  show ?thesis
    using h1 h2 get_task_found_or_not[of 1 ?rs] get_task_found_or_not[of 2 ?rs] by blast
qed

section \<open>Delete\<close>

lemma length_delete_present:
  "distinct (map fst al) \<Longrightarrow> k \<in> fst ` set al \<Longrightarrow> Suc (length (AList.delete k al)) = length al"
proof (induct al)
  case Nil
  then show ?case by simp
next
  case (Cons p ps)
  show ?case
  proof (cases "fst p = k")
    case True
    with Cons.prems have "k \<notin> fst ` set ps" by auto
    then show ?thesis using True by (cases p) simp
  next
    case False
    with Cons show ?thesis by (cases p) auto
  qed
qed

lemma values_delete:
  "\<forall>(k, t) \<in> set al. task_id t = k \<Longrightarrow>
     map snd (AList.delete i al) = filter (\<lambda>t. task_id t \<noteq> i) (map snd al)"
  by (induct al) (auto simp: AList.delete_eq)

text \<open>
  C8. In every state reached from the empty store and for every ID: \<open>delete_task\<close> fails,
  with the 404 \<open>HTTPException\<close>, exactly when the ID is not a key, and then leaves the
  state as it was. When the ID is a key, it succeeds and removes that entry only: a
  \<open>get_task\<close> with the same ID then fails with 404, the unfiltered list is the old one
  without the task of that ID (so no task of that ID is in it, the order of the others
  is kept, and it is shorter by exactly one), and the counter is unchanged.
\<close>

theorem delete_task_removes:
  "(not_found (fst (delete_task (run init_state rs) i)) \<longleftrightarrow> \<not> has_key (run init_state rs) i)
   \<and> ((\<exists>e. fst (delete_task (run init_state rs) i) = Inl e) \<longleftrightarrow> \<not> has_key (run init_state rs) i)
   \<and> (\<not> has_key (run init_state rs) i \<longrightarrow>
         snd (delete_task (run init_state rs) i) = run init_state rs)
   \<and> (has_key (run init_state rs) i \<longrightarrow>
         fst (delete_task (run init_state rs) i) = Inr ()
         \<and> map_of (tasks_db (snd (delete_task (run init_state rs) i))) =
             (map_of (tasks_db (run init_state rs)))(i := None)
         \<and> not_found (get_task (snd (delete_task (run init_state rs) i)) i)
         \<and> get_tasks (snd (delete_task (run init_state rs) i)) None =
             filter (\<lambda>t. task_id t \<noteq> i) (get_tasks (run init_state rs) None)
         \<and> (\<forall>t \<in> set (get_tasks (snd (delete_task (run init_state rs) i)) None). task_id t \<noteq> i)
         \<and> Suc (length (get_tasks (snd (delete_task (run init_state rs) i)) None)) =
             length (get_tasks (run init_state rs) None)
         \<and> next_id (snd (delete_task (run init_state rs) i)) = next_id (run init_state rs))"
proof -
  let ?st = "run init_state rs"
  let ?st' = "snd (delete_task ?st i)"
  have wf: "wf_state ?st" by (rule wf_reachable)
  then have d: "distinct (map fst (tasks_db ?st))"
    and ids: "\<forall>(k, t) \<in> set (tasks_db ?st). task_id t = k"
    by (auto simp: wf_state_def)
  have a: "not_found (fst (delete_task ?st i)) \<longleftrightarrow> \<not> has_key ?st i"
    by (cases "map_of (tasks_db ?st) i")
       (simp_all add: has_key_map_of delete_task_def HTTP_404_NOT_FOUND_def)
  have b: "(\<exists>e. fst (delete_task ?st i) = Inl e) \<longleftrightarrow> \<not> has_key ?st i"
    by (cases "map_of (tasks_db ?st) i") (simp_all add: has_key_map_of delete_task_def)
  have c: "\<not> has_key ?st i \<longrightarrow> ?st' = ?st"
    by (simp add: has_key_map_of delete_task_def)
  have e: "has_key ?st i \<longrightarrow>
         fst (delete_task ?st i) = Inr ()
         \<and> map_of (tasks_db ?st') = (map_of (tasks_db ?st))(i := None)
         \<and> not_found (get_task ?st' i)
         \<and> get_tasks ?st' None = filter (\<lambda>t. task_id t \<noteq> i) (get_tasks ?st None)
         \<and> (\<forall>t \<in> set (get_tasks ?st' None). task_id t \<noteq> i)
         \<and> Suc (length (get_tasks ?st' None)) = length (get_tasks ?st None)
         \<and> next_id ?st' = next_id ?st"
  proof
    assume k: "has_key ?st i"
    then obtain t where t: "map_of (tasks_db ?st) i = Some t"
      by (auto simp: has_key_map_of)
    have db: "tasks_db ?st' = AList.delete i (tasks_db ?st)"
      using t by (simp add: delete_task_def)
    have 1: "fst (delete_task ?st i) = Inr ()"
      using t by (simp add: delete_task_def)
    have 2: "map_of (tasks_db ?st') = (map_of (tasks_db ?st))(i := None)"
      by (simp add: db AList.delete_conv')
    have 3: "not_found (get_task ?st' i)"
      by (simp add: get_task_def 2 HTTP_404_NOT_FOUND_def)
    have 4: "get_tasks ?st' None = filter (\<lambda>t. task_id t \<noteq> i) (get_tasks ?st None)"
      using values_delete[OF ids] by (simp add: get_tasks_def db)
    have 5: "\<forall>t \<in> set (get_tasks ?st' None). task_id t \<noteq> i"
      by (simp add: 4)
    have "Suc (length (AList.delete i (tasks_db ?st))) = length (tasks_db ?st)"
      using k d by (intro length_delete_present) (simp_all add: has_key_def)
    then have 6: "Suc (length (get_tasks ?st' None)) = length (get_tasks ?st None)"
      by (simp add: get_tasks_def db)
    have 7: "next_id ?st' = next_id ?st" by simp
    show "fst (delete_task ?st i) = Inr ()
         \<and> map_of (tasks_db ?st') = (map_of (tasks_db ?st))(i := None)
         \<and> not_found (get_task ?st' i)
         \<and> get_tasks ?st' None = filter (\<lambda>t. task_id t \<noteq> i) (get_tasks ?st None)
         \<and> (\<forall>t \<in> set (get_tasks ?st' None). task_id t \<noteq> i)
         \<and> Suc (length (get_tasks ?st' None)) = length (get_tasks ?st None)
         \<and> next_id ?st' = next_id ?st"
      using 1 2 3 4 5 6 7 by blast
  qed
  show ?thesis using a b c e by blast
qed

theorem delete_task_removes_witness:
  "has_key (run init_state three_tasks) 2
   \<and> \<not> has_key (run init_state three_tasks) 7
   \<and> fst (delete_task (run init_state three_tasks) 2) = Inr ()
   \<and> not_found (fst (delete_task (run init_state three_tasks) 7))
   \<and> snd (delete_task (run init_state three_tasks) 7) = run init_state three_tasks
   \<and> not_found (get_task (snd (delete_task (run init_state three_tasks) 2)) 2)
   \<and> Suc (length (get_tasks (snd (delete_task (run init_state three_tasks) 2)) None)) =
        length (get_tasks (run init_state three_tasks) None)
   \<and> next_id (snd (delete_task (run init_state three_tasks) 2)) = next_id (run init_state three_tasks)
   \<and> \<lparr>task_id = 3, title = Some ''a'', description = None, completed = Some False,
          created_at = 2, updated_at = 2\<rparr>
        \<in> set (get_tasks (snd (delete_task (run init_state three_tasks) 2)) None)
   \<and> task_id \<lparr>task_id = 3, title = Some ''a'', description = None, completed = Some False,
          created_at = 2, updated_at = 2\<rparr> \<noteq> 2"
proof -
  have h1: "has_key (run init_state three_tasks) 2" by code_simp
  have h2: "\<not> has_key (run init_state three_tasks) 7" by code_simp
  have h3: "\<lparr>task_id = 3, title = Some ''a'', description = None, completed = Some False,
          created_at = 2, updated_at = 2\<rparr>
        \<in> set (get_tasks (snd (delete_task (run init_state three_tasks) 2)) None)" by code_simp
  note a = delete_task_removes[of three_tasks 2]
  note b = delete_task_removes[of three_tasks 7]
  from a h1 have p: "fst (delete_task (run init_state three_tasks) 2) = Inr ()
      \<and> not_found (get_task (snd (delete_task (run init_state three_tasks) 2)) 2)
      \<and> Suc (length (get_tasks (snd (delete_task (run init_state three_tasks) 2)) None)) =
        length (get_tasks (run init_state three_tasks) None)
      \<and> next_id (snd (delete_task (run init_state three_tasks) 2)) = next_id (run init_state three_tasks)"
    by blast
  from b h2 have q: "not_found (fst (delete_task (run init_state three_tasks) 7))
      \<and> snd (delete_task (run init_state three_tasks) 7) = run init_state three_tasks"
    by blast
  from a h1 h3 have r: "task_id \<lparr>task_id = 3, title = Some ''a'', description = None, completed = Some False,
          created_at = 2, updated_at = 2\<rparr> \<noteq> 2"
    by blast
  from h1 h2 h3 p q r show ?thesis by blast
qed

section \<open>Create\<close>

lemma validate_TaskCreate_title:
  "j_title b = Val s \<Longrightarrow> \<not> title_constraint s \<Longrightarrow> \<exists>fs. validate_TaskCreate b = Inl (RequestValidationError fs)"
  by (simp add: validate_TaskCreate_def split: field.splits)

lemma validate_TaskCreate_description:
  "j_description b = Val d \<Longrightarrow> \<not> description_constraint d \<Longrightarrow>
     \<exists>fs. validate_TaskCreate b = Inl (RequestValidationError fs)"
  by (simp add: validate_TaskCreate_def split: field.splits)

lemma validate_TaskCreate_ok:
  "valid_create_body b \<Longrightarrow>
     validate_TaskCreate b =
       Inr \<lparr>c_title = (case j_title b of Val s \<Rightarrow> s | Null \<Rightarrow> [] | Unset \<Rightarrow> []),
            c_description = (case j_description b of Val d \<Rightarrow> Some d | Null \<Rightarrow> None | Unset \<Rightarrow> None)\<rparr>"
  by (cases "j_title b"; cases "j_description b")
     (simp_all add: valid_create_body_def validate_TaskCreate_def title_constraint_def
        description_constraint_def)

lemma post_tasks_refused:
  "validate_TaskCreate b = Inl e \<Longrightarrow> post_tasks st b n1 n2 = (Inl e, st)"
  by (simp add: post_tasks_def)

text \<open>
  C7. Whatever the state, a Create request is refused with a validation error, and the
  state stays as it was, when the title is the empty string, when the title has 201 or
  more characters, and when the description has 1001 or more characters. With a title
  of exactly 200 characters and a description of exactly 1000 characters it succeeds
  and returns the new task.
\<close>

theorem create_validation_bounds:
  "(j_title body = Val [] \<longrightarrow>
      validation_error (fst (post_tasks st body now1 now2)) \<and> snd (post_tasks st body now1 now2) = st)
   \<and> (\<forall>s. j_title body = Val s \<and> 201 \<le> length s \<longrightarrow>
      validation_error (fst (post_tasks st body now1 now2)) \<and> snd (post_tasks st body now1 now2) = st)
   \<and> (\<forall>d. j_description body = Val d \<and> 1001 \<le> length d \<longrightarrow>
      validation_error (fst (post_tasks st body now1 now2)) \<and> snd (post_tasks st body now1 now2) = st)
   \<and> (\<forall>s d. j_title body = Val s \<and> length s = 200 \<and> j_description body = Val d \<and> length d = 1000 \<longrightarrow>
      fst (post_tasks st body now1 now2) =
        Inr \<lparr>task_id = next_id st, title = Some s, description = Some d, completed = Some False,
             created_at = now1, updated_at = now2\<rparr>)"
proof -
  have t: "validation_error (fst (post_tasks st body now1 now2)) \<and> snd (post_tasks st body now1 now2) = st"
    if "j_title body = Val s" "\<not> title_constraint s" for s
    using validate_TaskCreate_title[OF that] by (auto simp: post_tasks_refused)
  have d: "validation_error (fst (post_tasks st body now1 now2)) \<and> snd (post_tasks st body now1 now2) = st"
    if "j_description body = Val d" "\<not> description_constraint d" for d
    using validate_TaskCreate_description[OF that] by (auto simp: post_tasks_refused)
  have 1: "j_title body = Val [] \<longrightarrow>
      validation_error (fst (post_tasks st body now1 now2)) \<and> snd (post_tasks st body now1 now2) = st"
    using t[of "[]"] by (simp add: title_constraint_def)
  have 2: "\<forall>s. j_title body = Val s \<and> 201 \<le> length s \<longrightarrow>
      validation_error (fst (post_tasks st body now1 now2)) \<and> snd (post_tasks st body now1 now2) = st"
    using t by (simp add: title_constraint_def)
  have 3: "\<forall>d. j_description body = Val d \<and> 1001 \<le> length d \<longrightarrow>
      validation_error (fst (post_tasks st body now1 now2)) \<and> snd (post_tasks st body now1 now2) = st"
    using d by (simp add: description_constraint_def)
  have 4: "\<forall>s d. j_title body = Val s \<and> length s = 200 \<and> j_description body = Val d \<and> length d = 1000 \<longrightarrow>
      fst (post_tasks st body now1 now2) =
        Inr \<lparr>task_id = next_id st, title = Some s, description = Some d, completed = Some False,
             created_at = now1, updated_at = now2\<rparr>"
  proof (intro allI impI)
    fix s d
    assume a: "j_title body = Val s \<and> length s = 200 \<and> j_description body = Val d \<and> length d = 1000"
    then have "valid_create_body body" by (simp add: valid_create_body_def)
    from validate_TaskCreate_ok[OF this] a
    show "fst (post_tasks st body now1 now2) =
        Inr \<lparr>task_id = next_id st, title = Some s, description = Some d, completed = Some False,
             created_at = now1, updated_at = now2\<rparr>"
      by (simp add: post_tasks_def create_task_def Let_def)
  qed
  show ?thesis using 1 2 3 4 by blast
qed

theorem create_validation_bounds_witness:
  "validation_error (fst (post_tasks init_state \<lparr>j_title = Val [], j_description = Unset, j_completed = Unset\<rparr> 0 0))
   \<and> validation_error (fst (post_tasks init_state \<lparr>j_title = Val (xs 201), j_description = Unset, j_completed = Unset\<rparr> 0 0))
   \<and> validation_error (fst (post_tasks init_state \<lparr>j_title = Val ''Valid title'', j_description = Val (xs 1001), j_completed = Unset\<rparr> 0 0))
   \<and> fst (post_tasks init_state \<lparr>j_title = Val (xs 200), j_description = Val (xs 1000), j_completed = Unset\<rparr> 0 0) =
        Inr \<lparr>task_id = next_id init_state, title = Some (xs 200), description = Some (xs 1000),
             completed = Some False, created_at = 0, updated_at = 0\<rparr>"
proof -
  let ?b1 = "\<lparr>j_title = Val [], j_description = Unset, j_completed = Unset\<rparr>"
  let ?b2 = "\<lparr>j_title = Val (xs 201), j_description = Unset, j_completed = Unset\<rparr>"
  let ?b3 = "\<lparr>j_title = Val ''Valid title'', j_description = Val (xs 1001), j_completed = Unset\<rparr>"
  let ?b4 = "\<lparr>j_title = Val (xs 200), j_description = Val (xs 1000), j_completed = Unset\<rparr>"
  have h1: "j_title ?b1 = Val []" by simp
  have h2: "j_title ?b2 = Val (xs 201) \<and> 201 \<le> length (xs 201)" by (simp add: xs_def)
  have h3: "j_description ?b3 = Val (xs 1001) \<and> 1001 \<le> length (xs 1001)" by (simp add: xs_def)
  have h4: "j_title ?b4 = Val (xs 200) \<and> length (xs 200) = 200
      \<and> j_description ?b4 = Val (xs 1000) \<and> length (xs 1000) = 1000" by (simp add: xs_def)
  from h1 create_validation_bounds[of ?b1 init_state 0 0]
  have 1: "validation_error (fst (post_tasks init_state ?b1 0 0))" by blast
  from h2 create_validation_bounds[of ?b2 init_state 0 0]
  have 2: "validation_error (fst (post_tasks init_state ?b2 0 0))" by blast
  from h3 create_validation_bounds[of ?b3 init_state 0 0]
  have 3: "validation_error (fst (post_tasks init_state ?b3 0 0))" by blast
  from h4 create_validation_bounds[of ?b4 init_state 0 0]
  have 4: "fst (post_tasks init_state ?b4 0 0) =
        Inr \<lparr>task_id = next_id init_state, title = Some (xs 200), description = Some (xs 1000),
             completed = Some False, created_at = 0, updated_at = 0\<rparr>" by blast
  from 1 2 3 4 show ?thesis by blast
qed

text \<open>
  C3, as the code has it. For every valid Create body, Create succeeds; the task it
  returns carries the first clock reading as \<open>created_at\<close> and the second as
  \<open>updated_at\<close>, so the two are equal exactly when the two readings are; and a
  \<open>get_task\<close> with the new ID in the state Create leaves behind returns that same task.
\<close>

theorem create_then_get:
  assumes "valid_create_body body"
  shows "\<exists>t st'. post_tasks st body now1 now2 = (Inr t, st')
        \<and> created_at t = now1 \<and> updated_at t = now2
        \<and> (created_at t = updated_at t \<longleftrightarrow> now1 = now2)
        \<and> get_task st' (task_id t) = Inr t"
proof -
  from validate_TaskCreate_ok[OF assms] obtain d where v: "validate_TaskCreate body = Inr d"
    by blast
  let ?t = "fst (create_task st d now1 now2)" and ?st' = "snd (create_task st d now1 now2)"
  have p: "post_tasks st body now1 now2 = (Inr ?t, ?st')"
    using v by (simp add: post_tasks_def split: prod.splits)
  have c: "created_at ?t = now1" and u: "updated_at ?t = now2"
    by (simp_all add: create_task_def Let_def)
  have "map_of (tasks_db ?st') (task_id ?t) = Some ?t"
    by (simp add: create_task_def Let_def AList.update_conv')
  then have g: "get_task ?st' (task_id ?t) = Inr ?t"
    by (simp add: get_task_def)
  have e: "created_at ?t = updated_at ?t \<longleftrightarrow> now1 = now2"
    using c u by simp
  show ?thesis
    by (intro exI[of _ ?t] exI[of _ ?st'] conjI p c u e g)
qed

theorem create_then_get_witness:
  "valid_create_body body_a
   \<and> (\<exists>t st'. post_tasks init_state body_a 3 4 = (Inr t, st')
        \<and> created_at t = 3 \<and> updated_at t = 4
        \<and> (created_at t = updated_at t \<longleftrightarrow> (3::int) = 4)
        \<and> get_task st' (task_id t) = Inr t)"
proof -
  have h: "valid_create_body body_a" by (simp add: valid_create_body_def body_a_def)
  from h create_then_get[OF h, of init_state 3 4] show ?thesis by blast
qed

text \<open>
  C3 as stated fails: \<open>create_task\<close> reads the clock twice, and when the clock moves
  between the two readings the returned task has \<open>created_at\<close> different from
  \<open>updated_at\<close>.
\<close>

theorem create_timestamps_differ:
  "(case fst (post_tasks init_state body_a 0 1) of
      Inl e \<Rightarrow> False
    | Inr t \<Rightarrow> created_at t \<noteq> updated_at t)"
  by code_simp

section \<open>Update\<close>

lemma foldl_setattr_dump:
  "foldl setattr t (model_dump_exclude_unset d) =
     t\<lparr>title := patched (u_title d) (title t),
       description := patched (u_description d) (description t),
       completed := patched (u_completed d) (completed t)\<rparr>"
  by (cases "u_title d"; cases "u_description d"; cases "u_completed d")
     (simp_all add: model_dump_exclude_unset_def supplied_def patched_def)

lemma update_task_present:
  "map_of (tasks_db st) i = Some t0 \<Longrightarrow>
     update_task st i d now =
       (Inr (t0\<lparr>title := patched (u_title d) (title t0),
               description := patched (u_description d) (description t0),
               completed := patched (u_completed d) (completed t0),
               updated_at := now\<rparr>),
        st\<lparr>tasks_db := AList.update i
               (t0\<lparr>title := patched (u_title d) (title t0),
                   description := patched (u_description d) (description t0),
                   completed := patched (u_completed d) (completed t0),
                   updated_at := now\<rparr>) (tasks_db st)\<rparr>)"
  by (simp add: update_task_def Let_def foldl_setattr_dump)

lemma update_task_absent:
  "map_of (tasks_db st) i = None \<Longrightarrow>
     update_task st i d now =
       (Inl (HTTPException 404 (''Task with the id '' @ str_int i @ '' not found'')), st)"
  by (simp add: update_task_def HTTP_404_NOT_FOUND_def)

lemma validate_TaskUpdate_ok:
  "\<not> out_of_bounds b \<Longrightarrow>
     validate_TaskUpdate b =
       Inr \<lparr>u_title = j_title b, u_description = j_description b, u_completed = j_completed b\<rparr>"
  by (cases "j_title b"; cases "j_description b")
     (auto simp add: out_of_bounds_def validate_TaskUpdate_def title_constraint_def
        description_constraint_def Let_def Suc_le_eq)

lemma validate_TaskUpdate_refused:
  "out_of_bounds b \<Longrightarrow> \<exists>fs. validate_TaskUpdate b = Inl (RequestValidationError fs)"
  by (cases "j_title b"; cases "j_description b")
     (auto simp add: out_of_bounds_def validate_TaskUpdate_def title_constraint_def
        description_constraint_def Let_def Suc_le_eq)

lemma valid_patch_in_bounds: "valid_patch b \<Longrightarrow> \<not> out_of_bounds b"
  by (cases "j_title b"; cases "j_description b")
     (auto simp add: out_of_bounds_def valid_patch_def)

lemma keys_update_present:
  "map_of al k = Some v \<Longrightarrow> map fst (AList.update k v' al) = map fst al"
  by (simp add: AList.update_keys weak_map_of_SomeI map_of_eq_None_iff[symmetric] domI image_iff)
     (metis domI dom_map_of_conv_image_fst imageE)

text \<open>
  C4, as the code has it. For every ID under which a task is stored and every valid
  patch, Update succeeds and returns the stored task with exactly the supplied fields
  overwritten: a field missing from the patch keeps its value, \<open>id\<close> and \<open>created_at\<close>
  keep theirs, and \<open>updated_at\<close> becomes the clock reading taken by the handler. So
  \<open>updated_at\<close> increases strictly exactly when that reading is later than the old
  \<open>updated_at\<close>. With the empty patch nothing but \<open>updated_at\<close> changes. In the store the
  entry of this ID is replaced by the returned task; the other entries, the order of
  the keys and the counter are left as they were.
\<close>

theorem update_overwrites_supplied_fields:
  assumes "map_of (tasks_db st) i = Some t0" and "valid_patch body"
  shows "\<exists>t' st'. put_task st i body now = (Inr t', st')
      \<and> title t' = patched (j_title body) (title t0)
      \<and> description t' = patched (j_description body) (description t0)
      \<and> completed t' = patched (j_completed body) (completed t0)
      \<and> task_id t' = task_id t0
      \<and> created_at t' = created_at t0
      \<and> updated_at t' = now
      \<and> (updated_at t0 < updated_at t' \<longleftrightarrow> updated_at t0 < now)
      \<and> (body = empty_patch \<longrightarrow> t' = t0\<lparr>updated_at := now\<rparr>)
      \<and> map_of (tasks_db st') = (map_of (tasks_db st))(i \<mapsto> t')
      \<and> map fst (tasks_db st') = map fst (tasks_db st)
      \<and> next_id st' = next_id st"
proof -
  let ?d = "\<lparr>u_title = j_title body, u_description = j_description body,
             u_completed = j_completed body\<rparr>"
  let ?t = "t0\<lparr>title := patched (j_title body) (title t0),
               description := patched (j_description body) (description t0),
               completed := patched (j_completed body) (completed t0),
               updated_at := now\<rparr>"
  let ?st = "st\<lparr>tasks_db := AList.update i ?t (tasks_db st)\<rparr>"
  have v: "validate_TaskUpdate body = Inr ?d"
    using assms(2) by (intro validate_TaskUpdate_ok valid_patch_in_bounds)
  have p: "put_task st i body now = (Inr ?t, ?st)"
    using update_task_present[OF assms(1), of ?d now] by (simp add: put_task_def v)
  have e: "body = empty_patch \<longrightarrow> ?t = t0\<lparr>updated_at := now\<rparr>"
    by (simp add: empty_patch_def patched_def)
  have m: "map_of (tasks_db ?st) = (map_of (tasks_db st))(i \<mapsto> ?t)"
    by (simp add: AList.update_conv')
  have k: "map fst (tasks_db ?st) = map fst (tasks_db st)"
    using keys_update_present[OF assms(1)] by simp
  show ?thesis
    by (intro exI[of _ ?t] exI[of _ ?st] conjI p e m k) simp_all
qed

theorem update_overwrites_supplied_fields_witness:
  "map_of (tasks_db one_task) 1 = Some task_one
   \<and> valid_patch new_title
   \<and> valid_patch empty_patch
   \<and> (\<exists>t' st'. put_task one_task 1 new_title 9 = (Inr t', st')
        \<and> title t' = patched (j_title new_title) (title task_one)
        \<and> description t' = patched (j_description new_title) (description task_one)
        \<and> updated_at t' = 9)
   \<and> (\<exists>t' st'. put_task one_task 1 empty_patch 9 = (Inr t', st')
        \<and> t' = task_one\<lparr>updated_at := 9\<rparr>)"
proof -
  have h1: "map_of (tasks_db one_task) 1 = Some task_one" by code_simp
  have h2: "valid_patch new_title" by code_simp
  have h3: "valid_patch empty_patch" by code_simp
  from update_overwrites_supplied_fields[OF h1 h2, of 9]
  have a: "\<exists>t' st'. put_task one_task 1 new_title 9 = (Inr t', st')
        \<and> title t' = patched (j_title new_title) (title task_one)
        \<and> description t' = patched (j_description new_title) (description task_one)
        \<and> updated_at t' = 9" by blast
  from update_overwrites_supplied_fields[OF h1 h3, of 9]
  have b: "\<exists>t' st'. put_task one_task 1 empty_patch 9 = (Inr t', st')
        \<and> t' = task_one\<lparr>updated_at := 9\<rparr>" by blast
  from h1 h2 h3 a b show ?thesis by blast
qed

text \<open>
  C4 as stated fails: \<open>update_task\<close> stores the clock reading it takes, whatever it is.
  When the reading equals the \<open>updated_at\<close> the task already has, as it does when Create
  and Update fall within one tick of the clock, a successful Update leaves \<open>updated_at\<close>
  where it was.
\<close>

theorem update_same_reading:
  "(case (get_task one_task 1, fst (put_task one_task 1 empty_patch 5)) of
      (Inr t0, Inr t') \<Rightarrow> \<not> updated_at t0 < updated_at t'
    | (Inr t0, Inl e) \<Rightarrow> False
    | (Inl e, r) \<Rightarrow> False)"
  by code_simp

text \<open>
  C6, as the code has it. The body of an Update is validated before the handler runs,
  whether or not the ID exists: a supplied string that breaks its bounds gives a
  validation error, a valid patch does not. Update fails with the 404 \<open>HTTPException\<close>
  exactly when validation has passed and the ID is not a key. These are the only
  failures, and on each of them the state (mapping and counter) is left as it was.
\<close>

theorem update_failures:
  "(out_of_bounds body \<longrightarrow> validation_error (fst (put_task st i body now)))
   \<and> (valid_patch body \<longrightarrow> \<not> validation_error (fst (put_task st i body now)))
   \<and> (not_found (fst (put_task st i body now)) \<longleftrightarrow>
        \<not> has_key st i \<and> \<not> validation_error (fst (put_task st i body now)))
   \<and> ((\<exists>e. fst (put_task st i body now) = Inl e) \<longleftrightarrow>
        validation_error (fst (put_task st i body now)) \<or> not_found (fst (put_task st i body now)))
   \<and> ((\<exists>e. fst (put_task st i body now) = Inl e) \<longrightarrow> snd (put_task st i body now) = st)"
proof (cases "out_of_bounds body")
  case True
  from validate_TaskUpdate_refused[OF this] obtain fs
    where "validate_TaskUpdate body = Inl (RequestValidationError fs)" by blast
  then have p: "put_task st i body now = (Inl (RequestValidationError fs), st)"
    by (simp add: put_task_def)
  have "\<not> valid_patch body" using True valid_patch_in_bounds by blast
  then show ?thesis using True by (simp add: p)
next
  case False
  let ?d = "\<lparr>u_title = j_title body, u_description = j_description body,
             u_completed = j_completed body\<rparr>"
  have p: "put_task st i body now = update_task st i ?d now"
    using validate_TaskUpdate_ok[OF False] by (simp add: put_task_def)
  show ?thesis
  proof (cases "map_of (tasks_db st) i")
    case None
    then have "\<not> has_key st i" by (simp add: has_key_map_of)
    then show ?thesis using False by (simp add: p update_task_absent[OF None])
  next
    case (Some t0)
    then have "has_key st i" by (simp add: has_key_map_of)
    then show ?thesis using False by (simp add: p update_task_present[OF Some])
  qed
qed

theorem update_failures_witness:
  "out_of_bounds empty_title
   \<and> validation_error (fst (put_task one_task 1 empty_title 9))
   \<and> snd (put_task one_task 1 empty_title 9) = one_task
   \<and> valid_patch new_title
   \<and> \<not> validation_error (fst (put_task one_task 1 new_title 9))
   \<and> \<not> has_key one_task 999
   \<and> not_found (fst (put_task one_task 999 new_title 9))
   \<and> snd (put_task one_task 999 new_title 9) = one_task"
proof -
  have h1: "out_of_bounds empty_title" by code_simp
  have h2: "valid_patch new_title" by code_simp
  have h3: "\<not> has_key one_task 999" by code_simp
  note a = update_failures[of empty_title one_task 1 9]
  note b = update_failures[of new_title one_task 1 9]
  note c = update_failures[of new_title one_task 999 9]
  from a h1 have 1: "validation_error (fst (put_task one_task 1 empty_title 9))" by blast
  from a 1 have 2: "snd (put_task one_task 1 empty_title 9) = one_task" by blast
  from b h2 have 3: "\<not> validation_error (fst (put_task one_task 1 new_title 9))" by blast
  from c h2 have 4: "\<not> validation_error (fst (put_task one_task 999 new_title 9))" by blast
  from c h3 4 have 5: "not_found (fst (put_task one_task 999 new_title 9))" by blast
  from c 5 have 6: "snd (put_task one_task 999 new_title 9) = one_task" by blast
  from h1 h2 h3 1 2 3 5 6 show ?thesis by blast
qed

text \<open>
  C6 as stated fails: for an ID that is not a key and a patch with an empty title, the
  failure is the validation error, not NotFound.
\<close>

theorem update_absent_id_invalid_patch:
  "\<not> has_key one_task 999 \<and> \<not> not_found (fst (put_task one_task 999 empty_title 9))
   \<and> validation_error (fst (put_task one_task 999 empty_title 9))"
  by code_simp

section \<open>The bounds of the data model\<close>

lemma set_update_subset: "set (AList.update k v al) \<subseteq> insert (k, v) (set al)"
  by (induct al) auto

lemma store_within_bounds_iff:
  "store_within_bounds st \<longleftrightarrow> (\<forall>p \<in> set (tasks_db st). task_within_bounds (snd p))"
  by (simp add: store_within_bounds_def list_all_iff)

lemma bounds_create:
  assumes "store_within_bounds st"
  shows "store_within_bounds (snd (post_tasks st body now1 now2))"
proof (cases "validate_TaskCreate body")
  case (Inl e)
  then show ?thesis using assms by (simp add: snd_post_tasks)
next
  case (Inr d)
  then have "title_constraint (c_title d)"
    and "case c_description d of None \<Rightarrow> True | Some x \<Rightarrow> description_constraint x"
    by (cases "j_title body"; cases "j_description body";
        auto simp: validate_TaskCreate_def split: if_splits)+
  then have "task_within_bounds (fst (create_task st d now1 now2))"
    by (simp add: create_task_def task_within_bounds_def Let_def title_constraint_def
        description_constraint_def split: option.splits)
  moreover have "set (tasks_db (snd (create_task st d now1 now2)))
      \<subseteq> insert (next_id st, fst (create_task st d now1 now2)) (set (tasks_db st))"
    using set_update_subset by (simp add: create_task_def Let_def)
  ultimately show ?thesis
    using assms Inr unfolding store_within_bounds_iff snd_post_tasks by auto
qed

lemma bounds_update:
  assumes "store_within_bounds st" and "j_title body \<noteq> Null"
  shows "store_within_bounds (snd (put_task st i body now))"
proof (cases "out_of_bounds body")
  case True
  from validate_TaskUpdate_refused[OF this] show ?thesis
    using assms(1) by (auto simp: snd_put_task)
next
  case False
  let ?d = "\<lparr>u_title = j_title body, u_description = j_description body,
             u_completed = j_completed body\<rparr>"
  have p: "put_task st i body now = update_task st i ?d now"
    using validate_TaskUpdate_ok[OF False] by (simp add: put_task_def)
  show ?thesis
  proof (cases "map_of (tasks_db st) i")
    case None
    then show ?thesis using assms(1) by (simp add: p update_task_absent)
  next
    case (Some t0)
    let ?t = "t0\<lparr>title := patched (j_title body) (title t0),
               description := patched (j_description body) (description t0),
               completed := patched (j_completed body) (completed t0),
               updated_at := now\<rparr>"
    have "(i, t0) \<in> set (tasks_db st)" using Some by (rule map_of_SomeD)
    then have "task_within_bounds t0"
      using assms(1) unfolding store_within_bounds_iff by auto
    then have "task_within_bounds ?t"
      using False assms(2)
      by (cases "j_title body"; cases "j_description body")
         (auto simp: task_within_bounds_def patched_def out_of_bounds_def Suc_le_eq)
    moreover have "set (tasks_db (snd (put_task st i body now))) \<subseteq> insert (i, ?t) (set (tasks_db st))"
      using set_update_subset by (simp add: p update_task_present[OF Some])
    ultimately show ?thesis
      using assms(1) unfolding store_within_bounds_iff by auto
  qed
qed

lemma bounds_delete:
  "store_within_bounds st \<Longrightarrow> store_within_bounds (snd (delete_task st i))"
  by (cases "map_of (tasks_db st) i")
     (auto simp: store_within_bounds_iff delete_task_def set_delete)

lemma bounds_handle:
  "store_within_bounds st \<Longrightarrow> \<not> title_null r \<Longrightarrow> store_within_bounds (snd (handle st r))"
  unfolding snd_handle
  by (cases r) (simp_all add: bounds_create bounds_update bounds_delete)

text \<open>
  The \<open>null\<close> title is the only way out of the bounds: a sequence of requests in which no
  Update supplies \<open>null\<close> as title keeps every stored task within them.
\<close>

lemma bounds_kept_without_null_title:
  "store_within_bounds st \<Longrightarrow> \<forall>r \<in> set rs. \<not> title_null r \<Longrightarrow> store_within_bounds (run st rs)"
  by (induct rs arbitrary: st) (simp_all add: bounds_handle)

lemma bounds_init: "store_within_bounds init_state"
  by (simp add: store_within_bounds_def init_state_def)

lemma bounds_reachable_without_null_title:
  "\<forall>r \<in> set rs. \<not> title_null r \<Longrightarrow> store_within_bounds (run init_state rs)"
  by (rule bounds_kept_without_null_title) (rule bounds_init)

subsection \<open>The description stays within its bound\<close>

lemma description_create:
  assumes "\<forall>p \<in> set (tasks_db st). description_within_bound (snd p)"
  shows "\<forall>p \<in> set (tasks_db (snd (post_tasks st body now1 now2))). description_within_bound (snd p)"
proof (cases "validate_TaskCreate body")
  case (Inl e)
  then show ?thesis using assms by (simp add: snd_post_tasks)
next
  case (Inr d)
  then have "case c_description d of None \<Rightarrow> True | Some x \<Rightarrow> description_constraint x"
    by (cases "j_title body"; cases "j_description body")
       (auto simp: validate_TaskCreate_def split: if_splits)
  then have "description_within_bound (fst (create_task st d now1 now2))"
    by (simp add: create_task_def description_within_bound_def Let_def
        description_constraint_def split: option.splits)
  moreover have "set (tasks_db (snd (create_task st d now1 now2)))
      \<subseteq> insert (next_id st, fst (create_task st d now1 now2)) (set (tasks_db st))"
    using set_update_subset by (simp add: create_task_def Let_def)
  ultimately show ?thesis
    using assms Inr unfolding snd_post_tasks by auto
qed

lemma description_update:
  assumes "\<forall>p \<in> set (tasks_db st). description_within_bound (snd p)"
  shows "\<forall>p \<in> set (tasks_db (snd (put_task st i body now))). description_within_bound (snd p)"
proof (cases "out_of_bounds body")
  case True
  from validate_TaskUpdate_refused[OF this] show ?thesis
    using assms by (auto simp: snd_put_task)
next
  case False
  let ?d = "\<lparr>u_title = j_title body, u_description = j_description body,
             u_completed = j_completed body\<rparr>"
  have p: "put_task st i body now = update_task st i ?d now"
    using validate_TaskUpdate_ok[OF False] by (simp add: put_task_def)
  show ?thesis
  proof (cases "map_of (tasks_db st) i")
    case None
    then show ?thesis using assms by (simp add: p update_task_absent)
  next
    case (Some t0)
    let ?t = "t0\<lparr>title := patched (j_title body) (title t0),
               description := patched (j_description body) (description t0),
               completed := patched (j_completed body) (completed t0),
               updated_at := now\<rparr>"
    have "(i, t0) \<in> set (tasks_db st)" using Some by (rule map_of_SomeD)
    then have "description_within_bound t0" using assms by auto
    then have "description_within_bound ?t"
      using False
      by (cases "j_description body")
         (auto simp: description_within_bound_def patched_def out_of_bounds_def)
    moreover have "set (tasks_db (snd (put_task st i body now))) \<subseteq> insert (i, ?t) (set (tasks_db st))"
      using set_update_subset by (simp add: p update_task_present[OF Some])
    ultimately show ?thesis using assms by auto
  qed
qed

lemma description_delete:
  "\<forall>p \<in> set (tasks_db st). description_within_bound (snd p) \<Longrightarrow>
     \<forall>p \<in> set (tasks_db (snd (delete_task st i))). description_within_bound (snd p)"
  by (cases "map_of (tasks_db st) i") (auto simp: delete_task_def set_delete)

lemma description_handle:
  assumes "\<forall>p \<in> set (tasks_db st). description_within_bound (snd p)"
  shows "\<forall>p \<in> set (tasks_db (snd (handle st r))). description_within_bound (snd p)"
proof (cases r)
  case (List_req flt)
  then show ?thesis using assms by simp
next
  case (Get_req i)
  have "snd (handle st r) = st"
    unfolding snd_handle Get_req by simp
  then show ?thesis using assms by simp
next
  case (Create_req body now1 now2)
  have "snd (handle st r) = snd (post_tasks st body now1 now2)"
    unfolding snd_handle Create_req by simp
  then show ?thesis using description_create[OF assms] by simp
next
  case (Update_req i body now)
  have "snd (handle st r) = snd (put_task st i body now)"
    unfolding snd_handle Update_req by simp
  then show ?thesis using description_update[OF assms] by simp
next
  case (Delete_req i)
  have "snd (handle st r) = snd (delete_task st i)"
    unfolding snd_handle Delete_req by simp
  then show ?thesis using description_delete[OF assms] by simp
qed

lemma description_run:
  "\<forall>p \<in> set (tasks_db st). description_within_bound (snd p) \<Longrightarrow>
     \<forall>p \<in> set (tasks_db (run st rs)). description_within_bound (snd p)"
proof (induct rs arbitrary: st)
  case Nil
  then show ?case by simp
next
  case (Cons r rs)
  from description_handle[OF Cons.prems] have
    "\<forall>p \<in> set (tasks_db (snd (handle st r))). description_within_bound (snd p)" .
  from Cons.hyps[OF this] show ?case by simp
qed

text \<open>
  The bound on the description holds in every state reached from the empty store,
  whatever the requests.
\<close>

lemma description_bound_reachable:
  "list_all description_within_bound (get_tasks (run init_state rs) None)"
proof -
  have "\<forall>p \<in> set (tasks_db init_state). description_within_bound (snd p)"
    by (simp add: init_state_def)
  from description_run[OF this, of rs] show ?thesis
    by (simp add: get_tasks_def list_all_iff)
qed

subsection \<open>The title does not\<close>

text \<open>
  C1 at the failing input. After one Create, the store is within the bounds. An Update
  whose body gives \<open>null\<close> as title passes the validation of \<open>TaskUpdate\<close>, is dumped
  as a supplied field and assigned: the stored task then has no title at all, and the
  store is no longer within the bounds that \<open>Task\<close> declares.
\<close>

theorem null_title_is_stored:
  "store_within_bounds (run init_state [Create_req body_a 5 5])
   \<and> \<not> store_within_bounds (run init_state [Create_req body_a 5 5, Update_req 1 null_title 9])
   \<and> get_task (run init_state [Create_req body_a 5 5, Update_req 1 null_title 9]) 1 =
       Inr \<lparr>task_id = 1, title = None, description = None, completed = Some False,
            created_at = 5, updated_at = 9\<rparr>"
  by code_simp

section \<open>List\<close>

text \<open>
  What \<open>get_tasks\<close> returns in any state: without a filter, all the stored tasks in
  insertion order; with a filter, those of them whose \<open>completed\<close> equals the filter, in
  the same order. The two filtered lists are disjoint, and they partition the
  unfiltered one when every stored \<open>completed\<close> is a boolean.
\<close>

lemma get_tasks_filters:
  "get_tasks st None = map snd (tasks_db st)
   \<and> get_tasks st (Some c) = filter (\<lambda>task. completed task = Some c) (get_tasks st None)
   \<and> set (get_tasks st (Some True)) \<inter> set (get_tasks st (Some False)) = {}
   \<and> ((\<forall>task \<in> set (get_tasks st None). completed task \<noteq> None) \<longrightarrow>
        partition (\<lambda>task. completed task = Some True) (get_tasks st None) =
          (get_tasks st (Some True), get_tasks st (Some False)))"
proof -
  have "filter (Not \<circ> (\<lambda>task. completed task = Some True)) xs =
      filter (\<lambda>task. completed task = Some False) xs"
    if "\<forall>task \<in> set xs. completed task \<noteq> None" for xs :: "Task list"
    using that by (intro filter_cong) auto
  from this[of "map snd (tasks_db st)"] show ?thesis by (auto simp: get_tasks_def)
qed

text \<open>
  C5 at the failing input. After one Create and an Update whose body gives \<open>null\<close> as
  \<open>completed\<close>, the stored task has \<open>completed = None\<close>: it is in the unfiltered list and
  in neither filtered list, so the two filtered lists do not partition the unfiltered
  one.
\<close>

theorem null_completed_in_neither_filter:
  "get_tasks (run init_state [Create_req body_a 5 5, Update_req 1 null_completed 9]) None =
       [\<lparr>task_id = 1, title = Some ''a'', description = None, completed = None,
            created_at = 5, updated_at = 9\<rparr>]
   \<and> get_tasks (run init_state [Create_req body_a 5 5, Update_req 1 null_completed 9]) (Some True) = []
   \<and> get_tasks (run init_state [Create_req body_a 5 5, Update_req 1 null_completed 9]) (Some False) = []"
  by code_simp

section \<open>Scenarios\<close>

text \<open>
  The decimal rendering on a few integers.
\<close>

lemma str_int_examples:
  "str_int 999 = ''999'' \<and> str_int 0 = ''0'' \<and> str_int (- 40) = ''-40'' \<and> str_int 1205 = ''1205''"
  by code_simp

text \<open>
  Three tasks are created and the second is deleted: the IDs were 1, 2, 3, a Get of 2 then
  fails with 404, and the list holds the tasks 1 and 3 in this order.
\<close>

lemma scenario_delete_middle:
  "responses init_state (three_tasks @ [Delete_req 2, Get_req 2, List_req None]) =
     [One \<lparr>task_id = 1, title = Some ''a'', description = None, completed = Some False,
           created_at = 0, updated_at = 0\<rparr>,
      One \<lparr>task_id = 2, title = Some ''a'', description = None, completed = Some False,
           created_at = 1, updated_at = 1\<rparr>,
      One \<lparr>task_id = 3, title = Some ''a'', description = None, completed = Some False,
           created_at = 2, updated_at = 2\<rparr>,
      No_content,
      Failed (HTTPException 404 ''Error: Task with the id 2 not found''),
      Tasks [\<lparr>task_id = 1, title = Some ''a'', description = None, completed = Some False,
               created_at = 0, updated_at = 0\<rparr>,
             \<lparr>task_id = 3, title = Some ''a'', description = None, completed = Some False,
               created_at = 2, updated_at = 2\<rparr>]]"
  by code_simp

text \<open>
  Deleting the newest task does not make its ID available again.
\<close>

lemma scenario_ids_after_delete:
  "created_ids init_state (three_tasks @ [Delete_req 3, Delete_req 1, Create_req body_a 7 7]) = [1, 2, 3, 4]"
  by code_simp

text \<open>
  A task created without description has \<open>completed = False\<close> and no description; marking
  it as completed changes \<open>completed\<close> and \<open>updated_at\<close> only, and moves it from one filtered
  list to the other.
\<close>

lemma scenario_mark_completed:
  "responses init_state [Create_req task_body 5 5, Update_req 1 mark_completed 9, List_req (Some True),
       List_req (Some False)] =
     [One \<lparr>task_id = 1, title = Some ''Task'', description = None, completed = Some False,
           created_at = 5, updated_at = 5\<rparr>,
      One \<lparr>task_id = 1, title = Some ''Task'', description = None, completed = Some True,
           created_at = 5, updated_at = 9\<rparr>,
      Tasks [\<lparr>task_id = 1, title = Some ''Task'', description = None, completed = Some True,
           created_at = 5, updated_at = 9\<rparr>],
      Tasks []]"
  by code_simp

end
